theory Spec2Isabelle
  imports Main "HOL-Library.Sublist"
begin

section \<open>JavaScript strings and arrays\<close>

text \<open>
  A JavaScript string is modelled as a \<^typ>\<open>string\<close>: a list of 8-bit code units, read as
  the Latin-1 range of UTF-16. Code units above 255 are not represented.
\<close>

abbreviation quote :: char where "quote \<equiv> CHR 0x27"
abbreviation backslash :: char where "backslash \<equiv> CHR 0x5C"
abbreviation newline :: char where "newline \<equiv> CHR 0x0A"

text \<open>
  \<^verbatim>\<open>String.prototype.toLowerCase\<close> on the Latin-1 range: \<^verbatim>\<open>A\<close>..\<^verbatim>\<open>Z\<close> (65..90) and the
  accented capitals 192..222 except the multiplication sign 215 move up by 32; every other
  code unit is kept.
\<close>

definition toLowerCase_char :: "char \<Rightarrow> char" where
  "toLowerCase_char c =
     (let n = (of_char c :: nat)
      in if (65 \<le> n \<and> n \<le> 90) \<or> (192 \<le> n \<and> n \<le> 222 \<and> n \<noteq> 215)
         then char_of (n + 32) else c)"

definition toLowerCase :: "string \<Rightarrow> string" where
  "toLowerCase s = map toLowerCase_char s"

text \<open>\<^verbatim>\<open>String.prototype.includes(search)\<close>: some position of the string starts with \<open>search\<close>.\<close>

fun str_includes :: "string \<Rightarrow> string \<Rightarrow> bool" where
  "str_includes [] search = (search = [])"
| "str_includes (c # cs) search = (prefix search (c # cs) \<or> str_includes cs search)"

text \<open>
  \<^verbatim>\<open>String.prototype.trim\<close>: white space and line terminators are taken off both ends. In
  the Latin-1 range these are the code units 9 to 13, the space 32 and the no-break space
  160.
\<close>

definition js_whitespace :: "char \<Rightarrow> bool" where
  "js_whitespace c = ((of_char c :: nat) \<in> {9, 10, 11, 12, 13, 32, 160})"

definition trim :: "string \<Rightarrow> string" where
  "trim s = rev (dropWhile js_whitespace (rev (dropWhile js_whitespace s)))"

text \<open>\<^verbatim>\<open>Array.prototype.includes(x)\<close> on an array of strings.\<close>

definition arr_includes :: "string list \<Rightarrow> string \<Rightarrow> bool" where
  "arr_includes xs x = (x \<in> set xs)"

text \<open>
  \<^verbatim>\<open>Array.prototype.join(sep)\<close>, as the language defines it: the result \<open>R\<close> starts empty and
  the elements are appended from index \<open>k = 0\<close>, the separator first when \<open>k > 0\<close>.
\<close>

fun join_loop :: "string \<Rightarrow> string \<Rightarrow> nat \<Rightarrow> string list \<Rightarrow> string" where
  "join_loop sep R k [] = R"
| "join_loop sep R k (x # xs) = join_loop sep ((if 0 < k then R @ sep else R) @ x) (Suc k) xs"

definition join :: "string list \<Rightarrow> string \<Rightarrow> string" where
  "join xs sep = join_loop sep [] 0 xs"

text \<open>
  \<^verbatim>\<open>str.replace(/'/g, rep)\<close> for a replacement text without \<^verbatim>\<open>$\<close> patterns: a left-to-right
  scan that copies every code unit except the single quote, which becomes \<open>rep\<close>.
\<close>

fun replace_quotes :: "string \<Rightarrow> string \<Rightarrow> string" where
  "replace_quotes [] rep = []"
| "replace_quotes (c # cs) rep =
     (if c = quote then rep @ replace_quotes cs rep else c # replace_quotes cs rep)"

section \<open>lib/ssh.js: shell command builders\<close>

text \<open>The replacement text \<^verbatim>\<open>"'\\''"\<close> of the source: quote, backslash, quote, quote.\<close>

definition escaped_quote :: string where
  "escaped_quote = [quote, backslash, quote, quote]"

definition escapeForShell :: "string \<Rightarrow> string" where
  "escapeForShell str = replace_quotes str escaped_quote"

definition buildSudoCommand :: "string \<Rightarrow> string \<Rightarrow> string" where
  "buildSudoCommand password command =
     (let escapedCommand = replace_quotes command escaped_quote
      in ''echo '' @ [quote] @ escapeForShell password @ [quote] @
         '' | sudo -S bash -c '' @ [quote] @ escapedCommand @ [quote])"

definition buildHostsUploadCommand :: "string \<Rightarrow> string \<Rightarrow> string \<Rightarrow> string" where
  "buildHostsUploadCommand remoteHostsPath remoteBackupPath hostsContent =
     (let escapedContent = replace_quotes hostsContent escaped_quote
      in ''cp '' @ remoteHostsPath @ '' '' @ remoteBackupPath @
         '' && printf '' @ [quote] @ ''%s'' @ [backslash] @ ''n'' @ [quote] @
         '' '' @ [quote] @ escapedContent @ [quote] @ '' > '' @ remoteHostsPath)"

definition buildBrowserKillCommand :: "string list \<Rightarrow> string" where
  "buildBrowserKillCommand browsers =
     (let browserList = join browsers '' ''
      in ''pkill -f '' @ [quote] @ browserList @ [quote] @ '' || true'')"

section \<open>lib/commands.js: the command parser\<close>

text \<open>
  \<^verbatim>\<open>parseChessCommand(message, tags = [])\<close> returns \<^verbatim>\<open>true\<close> to block, \<^verbatim>\<open>false\<close> to
  allow and \<^verbatim>\<open>null\<close> when no command is found: \<^term>\<open>Some True\<close>, \<^term>\<open>Some False\<close> and
  \<^term>\<open>None :: bool option\<close>. An absent message or tag list is \<^term>\<open>None\<close>.
\<close>

definition messageLower :: "string option \<Rightarrow> string" where
  "messageLower message = (case message of None \<Rightarrow> [] | Some m \<Rightarrow> toLowerCase m)"

definition tagsList :: "string list option \<Rightarrow> string list" where
  "tagsList tags = map toLowerCase (case tags of None \<Rightarrow> [] | Some ts \<Rightarrow> ts)"

definition parseChessCommand :: "string option \<Rightarrow> string list option \<Rightarrow> bool option" where
  "parseChessCommand message tags =
     (if arr_includes (tagsList tags) ''block'' \<or> arr_includes (tagsList tags) ''suspend''
      then Some True
      else if arr_includes (tagsList tags) ''allow'' \<or> arr_includes (tagsList tags) ''unblock''
      then Some False
      else if str_includes (messageLower message) ''block'' \<or>
              str_includes (messageLower message) ''suspend'' \<or>
              str_includes (messageLower message) ''stop chess'' \<or>
              str_includes (messageLower message) ''disable chess''
      then Some True
      else if str_includes (messageLower message) ''allow'' \<or>
              str_includes (messageLower message) ''unblock'' \<or>
              str_includes (messageLower message) ''enable chess'' \<or>
              str_includes (messageLower message) ''start chess''
      then Some False
      else None)"

section \<open>suspend-chess.js: the orchestrator\<close>

subsection \<open>Errors, console lines and events\<close>

text \<open>
  The \<^verbatim>\<open>Error\<close> objects that travel through the orchestrator: the error handed over by
  \<^verbatim>\<open>conn.exec\<close> or by the stream (with its message), the error event of the connection,
  \<^verbatim>\<open>new Error("SSH connection timeout")\<close>, the error of lib/file-utils.js for a file that
  cannot be read (with the file's name) and \<^verbatim>\<open>new Error(`Upload failed with exit code ${code}`)\<close>
  (with the code it was given, which may be \<^verbatim>\<open>null\<close>).
\<close>

datatype js_error =
    ChannelError string
  | ConnectionError string
  | ConnectionTimeout
  | ReadFailed string
  | UploadFailed "int option"

text \<open>
  What \<^verbatim>\<open>executeSSHCommand\<close> resolves to: \<^verbatim>\<open>{ code, output }\<close> (the output as
  \<open>outputText\<close>). The code is what the \<^verbatim>\<open>close\<close> event of the stream hands over: the exit
  status of the remote command, or \<^verbatim>\<open>null\<close> (\<^term>\<open>None :: int option\<close>) when the command did
  not exit by itself but was ended by a signal.
\<close>

record exec_result =
  code :: "int option"
  outputText :: string

text \<open>
  Each line written to the console is one constructor, with the values the source puts
  into the text: \<^verbatim>\<open>logSuccess(`${browserName} processes killed successfully`)\<close> is
  \<open>KilledSuccessfully browserName\<close>, and so on in the order of the source.
\<close>

datatype log_line =
    CommandOutput string
  | UsingHostsFile string
  | LocalPath string
  | ReadSuccess nat
  | ReadError js_error
  | AttemptingConnection
  | ConnectionEstablished
  | ConnectionErrorLog string
  | ConnectionTimedOut
  | KilledSuccessfully string
  | NoProcessesFound string
  | FailedToKill string "int option"
  | ErrorKilling string js_error
  | HostsUpdated
  | AllCommandsExecuted
  | TimerStarted nat bool
  | DisplayUpdates nat
  | TimerProgress nat nat
  | TimerCompleted bool
  | StartingScript
  | ModeLog bool
  | TimerConfigured nat
  | ConnectingTo
  | ScriptCompleted
  | ScriptFailed js_error
  | ReceivedNotification
  | TitleLog "string option"
  | MessageLog "string option"
  | PriorityLog "nat option"
  | TagsLog "string list option"
  | NotRecognized
  | Executing bool
  | CommandCompleted
  | ErrorProcessing js_error

text \<open>
  The effects of a run, in the order they happen: a console line, the password prompt,
  \<^verbatim>\<open>conn.connect\<close>, \<^verbatim>\<open>conn.exec(command)\<close>, \<^verbatim>\<open>conn.end()\<close>, a call of \<^verbatim>\<open>res.json\<close> with
  the fields of its body, and the call \<^verbatim>\<open>res.status(500).json\<close> of the webhook's handler.
\<close>

datatype event =
    Console log_line
  | Prompt
  | Connect
  | Exec string
  | ConnEnd
  | ResJson "(string \<times> string) list"
  | ResStatus500 js_error

text \<open>
  The mutable state: the two fields of \<^verbatim>\<open>SSH_CONFIG\<close> that the code writes, and the events
  so far. \<^verbatim>\<open>SSH_CONFIG.privateKey\<close> is never set.
\<close>

record world =
  suspendChess_flag :: bool
  password :: string
  events :: "event list"

text \<open>
  What is outside the program: the event the connection answers \<^verbatim>\<open>conn.connect\<close> with,
  what the remote side answers to a command (an error of the channel, or exit code and
  output; it may depend on everything that happened before), the files of the \<^verbatim>\<open>config\<close>
  directory by name, and the answer typed at the password prompt.
\<close>

datatype connect_event = Ready | Error string | Timeout

record env =
  connect_result :: connect_event
  remote_exec :: "event list \<Rightarrow> string \<Rightarrow> string + exec_result"
  read_file :: "string \<Rightarrow> string option"
  prompt_answer :: string

type_synonym 'a outcome = "(js_error + 'a) \<times> world"

definition emit :: "event \<Rightarrow> world \<Rightarrow> world" where
  "emit e w = w\<lparr>events := events w @ [e]\<rparr>"

definition log :: "log_line \<Rightarrow> world \<Rightarrow> world" where
  "log l w = emit (Console l) w"

text \<open>The commands of \<^verbatim>\<open>conn.exec\<close> among the events, in order.\<close>

fun executed :: "event list \<Rightarrow> string list" where
  "executed [] = []"
| "executed (Exec c # es) = c # executed es"
| "executed (e # es) = executed es"

subsection \<open>Constants\<close>

definition waitTimeMinutes :: nat where "waitTimeMinutes = 0"
definition updateIntervalSeconds :: nat where "updateIntervalSeconds = 2"
definition REMOTE_HOSTS_PATH :: string where "REMOTE_HOSTS_PATH = ''/etc/hosts''"
definition REMOTE_HOSTS_BACKUP_PATH :: string where
  "REMOTE_HOSTS_BACKUP_PATH = ''/etc/hosts.backup''"
definition BROWSERS_TO_KILL :: "string list" where "BROWSERS_TO_KILL = [''firefox'', ''brave'']"
definition PKILL_SUCCESS_CODE :: int where "PKILL_SUCCESS_CODE = 0"
definition PKILL_NO_PROCESSES_CODE :: int where "PKILL_NO_PROCESSES_CODE = 1"
definition HOSTS_FILE_NAMES_BLOCKED :: string where
  "HOSTS_FILE_NAMES_BLOCKED = ''hostsuncommented''"
definition HOSTS_FILE_NAMES_ALLOWED :: string where
  "HOSTS_FILE_NAMES_ALLOWED = ''hostscommented''"

subsection \<open>Running commands\<close>

definition executeSSHCommand :: "env \<Rightarrow> string \<Rightarrow> world \<Rightarrow> exec_result outcome" where
  "executeSSHCommand en command w =
     (case remote_exec en (events w) command of
        Inl err \<Rightarrow> (Inl (ChannelError err), emit (Exec command) w)
      | Inr result \<Rightarrow> (Inr result, emit (Exec command) w))"

text \<open>
  The executor of \<^verbatim>\<open>createLoggedCommandExecutor\<close>: a non-empty output is logged, trimmed
  by \<^verbatim>\<open>logSSHOutput\<close>.
\<close>

definition executeCommand :: "env \<Rightarrow> string \<Rightarrow> world \<Rightarrow> exec_result outcome" where
  "executeCommand en command w =
     (case executeSSHCommand en command w of
        (Inl err, w') \<Rightarrow> (Inl err, w')
      | (Inr result, w') \<Rightarrow>
          (Inr result, if outputText result \<noteq> [] then log (CommandOutput (trim (outputText result))) w'
           else w'))"

subsection \<open>File operations\<close>

text \<open>\<^verbatim>\<open>readLocalHostsFile(config, isBlocking)\<close> of lib/file-utils.js.\<close>

definition readHostsFile :: "env \<Rightarrow> string \<Rightarrow> string \<Rightarrow> bool \<Rightarrow> js_error + string" where
  "readHostsFile en blockedFileName allowedFileName isBlocking =
     (let fileName = (if isBlocking then blockedFileName else allowedFileName)
      in case read_file en fileName of
           Some content \<Rightarrow> Inr content
         | None \<Rightarrow> Inl (ReadFailed fileName))"

text \<open>The \<^verbatim>\<open>const hostsFileName\<close> of \<^verbatim>\<open>readLocalHostsFile\<close>.\<close>

definition hostsFileName :: "bool \<Rightarrow> string" where
  "hostsFileName isBlocking =
     (if isBlocking then HOSTS_FILE_NAMES_BLOCKED else HOSTS_FILE_NAMES_ALLOWED)"

definition readLocalHostsFile :: "env \<Rightarrow> bool \<Rightarrow> world \<Rightarrow> string outcome" where
  "readLocalHostsFile en isBlocking w =
     (let w1 = log (UsingHostsFile (hostsFileName isBlocking)) w;
          w2 = log (LocalPath (hostsFileName isBlocking)) w1
      in case readHostsFile en HOSTS_FILE_NAMES_BLOCKED HOSTS_FILE_NAMES_ALLOWED isBlocking of
           Inr hostsContent \<Rightarrow> (Inr hostsContent, log (ReadSuccess (length hostsContent)) w2)
         | Inl error \<Rightarrow> (Inl error, log (ReadError error) w2))"

definition buildCompleteUploadCommand :: "string \<Rightarrow> string \<Rightarrow> string" where
  "buildCompleteUploadCommand pw hostsContent =
     (let uploadPart =
            buildHostsUploadCommand REMOTE_HOSTS_PATH REMOTE_HOSTS_BACKUP_PATH hostsContent
      in buildSudoCommand pw uploadPart)"

subsection \<open>SSH connection functions\<close>

definition establishSSHConnection :: "env \<Rightarrow> world \<Rightarrow> unit outcome" where
  "establishSSHConnection en w =
     (let w1 = log AttemptingConnection w;
          w2 = (if password w1 = [] then (emit Prompt w1)\<lparr>password := prompt_answer en\<rparr> else w1);
          w3 = emit Connect w2
      in case connect_result en of
           Ready \<Rightarrow> (Inr (), log ConnectionEstablished w3)
         | Error err \<Rightarrow> (Inl (ConnectionError err), log (ConnectionErrorLog err) w3)
         | Timeout \<Rightarrow> (Inl ConnectionTimeout, log ConnectionTimedOut w3))"

definition killBrowserProcess :: "env \<Rightarrow> string \<Rightarrow> world \<Rightarrow> unit outcome" where
  "killBrowserProcess en browserName w =
     (let command = buildBrowserKillCommand [browserName]
      in case executeCommand en command w of
           (Inr result, w') \<Rightarrow>
             (Inr (),
              if code result = Some PKILL_SUCCESS_CODE then log (KilledSuccessfully browserName) w'
              else if code result = Some PKILL_NO_PROCESSES_CODE
              then log (NoProcessesFound browserName) w'
              else log (FailedToKill browserName (code result)) w')
         | (Inl error, w') \<Rightarrow> (Inl error, log (ErrorKilling browserName error) w'))"

text \<open>The \<^verbatim>\<open>for\<close> loop of \<^verbatim>\<open>killAllBrowsers\<close>: an error of one step leaves the loop.\<close>

fun killBrowsers_loop :: "env \<Rightarrow> string list \<Rightarrow> world \<Rightarrow> unit outcome" where
  "killBrowsers_loop en [] w = (Inr (), w)"
| "killBrowsers_loop en (browser # rest) w =
     (case killBrowserProcess en browser w of
        (Inl error, w') \<Rightarrow> (Inl error, w')
      | (Inr u, w') \<Rightarrow> killBrowsers_loop en rest w')"

definition killAllBrowsers :: "env \<Rightarrow> world \<Rightarrow> unit outcome" where
  "killAllBrowsers en w = killBrowsers_loop en BROWSERS_TO_KILL w"

definition uploadHostsFile :: "env \<Rightarrow> string \<Rightarrow> world \<Rightarrow> unit outcome" where
  "uploadHostsFile en hostsContent w =
     (let uploadCommand = buildCompleteUploadCommand (password w) hostsContent
      in case executeCommand en uploadCommand w of
           (Inl error, w') \<Rightarrow> (Inl error, w')
         | (Inr result, w') \<Rightarrow>
             if code result \<noteq> Some 0 then (Inl (UploadFailed (code result)), w')
             else (Inr (), log HostsUpdated w'))"

text \<open>The \<^verbatim>\<open>try\<close> block of \<^verbatim>\<open>executeRemoteCommands\<close>.\<close>

definition executeRemoteCommands_try :: "env \<Rightarrow> world \<Rightarrow> unit outcome" where
  "executeRemoteCommands_try en w =
     (case establishSSHConnection en w of
        (Inl error, w1) \<Rightarrow> (Inl error, w1)
      | (Inr u, w1) \<Rightarrow>
          (case readLocalHostsFile en (suspendChess_flag w1) w1 of
             (Inl error, w2) \<Rightarrow> (Inl error, w2)
           | (Inr hostsContent, w2) \<Rightarrow>
               (case uploadHostsFile en hostsContent w2 of
                  (Inl error, w3) \<Rightarrow> (Inl error, w3)
                | (Inr u', w3) \<Rightarrow>
                    (case killAllBrowsers en w3 of
                       (Inl error, w4) \<Rightarrow> (Inl error, w4)
                     | (Inr u'', w4) \<Rightarrow> (Inr (), log AllCommandsExecuted w4)))))"

text \<open>\<^verbatim>\<open>executeRemoteCommands\<close>: the \<^verbatim>\<open>finally\<close> block ends the connection.\<close>

definition executeRemoteCommands :: "env \<Rightarrow> world \<Rightarrow> unit outcome" where
  "executeRemoteCommands en w =
     (case executeRemoteCommands_try en w of (result, w') \<Rightarrow> (result, emit ConnEnd w'))"

subsection \<open>Timer functions\<close>

text \<open>
  The ticks of \<^verbatim>\<open>setInterval\<close> in \<^verbatim>\<open>startTimer\<close>: each adds the update interval to the elapsed
  seconds and either ends the timer or shows the progress. The interrupt handler, which
  leaves the whole process, is not part of the model.
\<close>

function timer_ticks :: "nat \<Rightarrow> nat \<Rightarrow> bool \<Rightarrow> world \<Rightarrow> world" where
  "timer_ticks totalSeconds elapsedSeconds isBlocking w =
     (if totalSeconds \<le> elapsedSeconds + updateIntervalSeconds
      then log (TimerCompleted isBlocking) w
      else timer_ticks totalSeconds (elapsedSeconds + updateIntervalSeconds) isBlocking
             (log (TimerProgress (elapsedSeconds + updateIntervalSeconds) totalSeconds) w))"
  by pat_completeness auto
termination
  by (relation "measure (\<lambda>(t, e, b, w). t - e)") (auto simp add: updateIntervalSeconds_def)

definition startTimer :: "bool \<Rightarrow> world \<Rightarrow> world" where
  "startTimer isBlocking w =
     (let totalSeconds = waitTimeMinutes * 60;
          w1 = log (TimerStarted waitTimeMinutes isBlocking) w;
          w2 = log (DisplayUpdates updateIntervalSeconds) w1
      in timer_ticks totalSeconds 0 isBlocking w2)"

subsection \<open>Main execution functions\<close>

text \<open>The \<^verbatim>\<open>try\<close> block of \<^verbatim>\<open>suspendChess\<close>.\<close>

definition suspendChess_try :: "env \<Rightarrow> world \<Rightarrow> bool outcome" where
  "suspendChess_try en w =
     (let w1 = log StartingScript w;
          w2 = log (ModeLog (suspendChess_flag w1)) w1;
          w3 = log (TimerConfigured waitTimeMinutes) w2;
          w4 = startTimer (suspendChess_flag w3) w3;
          w5 = log ConnectingTo w4
      in case executeRemoteCommands en w5 of
           (Inl error, w6) \<Rightarrow> (Inl error, w6)
         | (Inr u, w6) \<Rightarrow> (Inr True, log ScriptCompleted w6))"

text \<open>
  \<^verbatim>\<open>suspendChess(shouldBlock = SSH_CONFIG.suspendChess)\<close>: an absent argument is \<^term>\<open>None\<close>.
  The \<^verbatim>\<open>catch\<close> block logs and throws again, the \<^verbatim>\<open>finally\<close> block writes the saved
  setting back.
\<close>

definition shouldBlock_default :: "bool option \<Rightarrow> world \<Rightarrow> bool" where
  "shouldBlock_default shouldBlockArg w =
     (case shouldBlockArg of None \<Rightarrow> suspendChess_flag w | Some b \<Rightarrow> b)"

definition suspendChess :: "env \<Rightarrow> bool option \<Rightarrow> world \<Rightarrow> bool outcome" where
  "suspendChess en shouldBlockArg w =
     (let shouldBlock = shouldBlock_default shouldBlockArg w;
          originalSetting = suspendChess_flag w;
          w0 = w\<lparr>suspendChess_flag := shouldBlock\<rparr>
      in case suspendChess_try en w0 of
           (Inr ok, w') \<Rightarrow> (Inr ok, w'\<lparr>suspendChess_flag := originalSetting\<rparr>)
         | (Inl error, w') \<Rightarrow>
             (Inl error, (log (ScriptFailed error) w')\<lparr>suspendChess_flag := originalSetting\<rparr>))"

section \<open>ntfy/ntfy-listener.js: the webhook\<close>

text \<open>The body of a request: \<^verbatim>\<open>{ message, title, priority, tags }\<close>, each possibly absent.\<close>

record request_body =
  body_message :: "string option"
  body_title :: "string option"
  body_priority :: "nat option"
  body_tags :: "string list option"

text \<open>
  The function that the module hands to \<^verbatim>\<open>app.post("/ntfy-webhook", ...)\<close>. It answers before
  it awaits \<^verbatim>\<open>suspendChess\<close>; an error of the run reaches the \<^verbatim>\<open>catch\<close> block, which calls
  \<^verbatim>\<open>res.status(500).json\<close>. It runs only once the module has been loaded and has
  registered it: see \<open>ntfy_listener\<close> below.
\<close>

definition ignored_response :: "(string \<times> string) list" where
  "ignored_response = [(''status'', ''ignored''), (''message'', ''Not a valid chess command'')]"

definition accepted_response :: "bool \<Rightarrow> (string \<times> string) list" where
  "accepted_response shouldBlock =
     [(''status'', ''accepted''),
      (''action'', if shouldBlock then ''blocking'' else ''allowing''),
      (''message'', ''Processing chess command...'')]"

definition ntfy_webhook :: "env \<Rightarrow> request_body \<Rightarrow> world \<Rightarrow> world" where
  "ntfy_webhook en body w =
     (let w1 = log ReceivedNotification w;
          w2 = log (TitleLog (body_title body)) w1;
          w3 = log (MessageLog (body_message body)) w2;
          w4 = log (PriorityLog (body_priority body)) w3;
          w5 = log (TagsLog (body_tags body)) w4
      in case parseChessCommand (body_message body) (body_tags body) of
           None \<Rightarrow> emit (ResJson ignored_response) (log NotRecognized w5)
         | Some shouldBlock \<Rightarrow>
             (let w6 = emit (ResJson (accepted_response shouldBlock)) w5;
                  w7 = log (Executing shouldBlock) w6
              in case suspendChess en (Some shouldBlock) w7 of
                   (Inr ok, w8) \<Rightarrow> log CommandCompleted w8
                 | (Inl error, w8) \<Rightarrow> emit (ResStatus500 error) (log (ErrorProcessing error) w8)))"

subsection \<open>Loading the module\<close>

text \<open>
  The modules are native ECMAScript modules. Line 2 of ntfy/ntfy-listener.js is
  \<^verbatim>\<open>import { executeRemoteCommands, suspendChess } from "../suspend-chess.js"\<close>, and the only
  \<^verbatim>\<open>export\<close> of suspend-chess.js is \<^verbatim>\<open>export async function suspendChess\<close>.
\<close>

definition ntfy_listener_imports :: "string list" where
  "ntfy_listener_imports = [''executeRemoteCommands'', ''suspendChess'']"

definition suspend_chess_exports :: "string list" where
  "suspend_chess_exports = [''suspendChess'']"

text \<open>
  Linking named imports: the first imported name that the other module does not export is a
  \<^verbatim>\<open>SyntaxError\<close> before any statement of the importing module runs.
\<close>

definition link_imports :: "string list \<Rightarrow> string list \<Rightarrow> string option" where
  "link_imports imports exports = find (\<lambda>name. name \<notin> set exports) imports"

text \<open>
  A request to \<^verbatim>\<open>POST /ntfy-webhook\<close> of the program started as \<^verbatim>\<open>node ntfy-listener.js\<close>:
  when the imports do not link, the result is the name that is missing (\<open>Inl\<close>): no handler
  was registered, no server listens and nothing answers. Otherwise the handler runs.
\<close>

definition ntfy_listener :: "env \<Rightarrow> request_body \<Rightarrow> world \<Rightarrow> string + world" where
  "ntfy_listener en body w =
     (case link_imports ntfy_listener_imports suspend_chess_exports of
        Some name \<Rightarrow> Inl name
      | None \<Rightarrow> Inr (ntfy_webhook en body w))"

section \<open>Single-quoted words of the remote shell\<close>

text \<open>
  The quoting rules of the POSIX shell that a single-quoted word meets. Inside single quotes
  (\<open>True\<close>) every character is literal up to the closing quote. Outside (\<open>False\<close>) a quote
  opens a quoted part, a backslash makes the next character literal (a backslash and a
  newline vanish together), and the word ends with the text. Any other character outside
  quotes could be read by the shell as syntax, and a quote left open is an error: both are
  \<^term>\<open>None\<close>. The result is the text the shell passes on.
\<close>

fun sh_literal :: "bool \<Rightarrow> string \<Rightarrow> string option" where
  "sh_literal True [] = None"
| "sh_literal True (c # cs) =
     (if c = quote then sh_literal False cs
      else map_option ((#) c) (sh_literal True cs))"
| "sh_literal False [] = Some []"
| "sh_literal False (c # cs) =
     (if c = quote then sh_literal True cs
      else if c = backslash then
        (case cs of
           [] \<Rightarrow> None
         | d # ds \<Rightarrow> if d = newline then sh_literal False ds
                     else map_option ((#) d) (sh_literal False ds))
      else None)"

text \<open>The words of the specification: every single quote becomes the four characters.\<close>

definition spec_escape :: "string \<Rightarrow> string" where
  "spec_escape s = concat (map (\<lambda>c. if c = quote then [quote, backslash, quote, quote] else [c]) s)"


section \<open>Predicates and environments of the statements\<close>

text \<open>\<open>w'\<close> has the events of \<open>w\<close> and then only events that satisfy \<open>P\<close>.\<close>

definition extends_by :: "(event \<Rightarrow> bool) \<Rightarrow> world \<Rightarrow> world \<Rightarrow> bool" where
  "extends_by P w w' = (\<exists>evs. events w' = events w @ evs \<and> list_all P evs)"

text \<open>
  The console lines of \<^verbatim>\<open>killBrowserProcess\<close> that show a non-zero exit status:
  \<^verbatim>\<open>No ... processes found to kill\<close>, and \<^verbatim>\<open>Failed to kill ..., exit code: ...\<close> with a
  number. (\<^verbatim>\<open>Failed to kill ..., exit code: null\<close> shows no exit status.)
\<close>

fun kill_exit_code_line :: "event \<Rightarrow> bool" where
  "kill_exit_code_line (Console (NoProcessesFound b)) = True"
| "kill_exit_code_line (Console (FailedToKill b (Some n))) = True"
| "kill_exit_code_line e = False"

text \<open>
  The remote shell runs an OR list as POSIX says: whenever a command that ends in
  \<^verbatim>\<open>|| true\<close> exits with a status, the status is 0. This says nothing about a command that
  is ended by a signal and so has no exit status.
\<close>

definition or_true_exits_zero :: "env \<Rightarrow> bool" where
  "or_true_exits_zero en =
     (\<forall>h c r n. suffix ''|| true'' c \<and> remote_exec en h c = Inr r \<and> code r = Some n
        \<longrightarrow> n = 0)"

text \<open>
  The exit status of the OR list \<^verbatim>\<open>first || second\<close>: the second command runs only when
  the first fails, and the status is that of the last command run.
\<close>

definition or_list_status :: "int \<Rightarrow> int \<Rightarrow> int" where
  "or_list_status first second = (if first = 0 then 0 else second)"

text \<open>
  A remote side where \<^verbatim>\<open>pkill\<close> always leaves with the given status and the shell
  evaluates the closing \<^verbatim>\<open>|| true\<close>; every other command succeeds.
\<close>

definition exec_or_true :: "int \<Rightarrow> event list \<Rightarrow> string \<Rightarrow> string + exec_result" where
  "exec_or_true pkillStatus h c =
     Inr \<lparr>code = Some (if suffix ''|| true'' c then or_list_status pkillStatus 0 else 0),
          outputText = []\<rparr>"

text \<open>
  A remote side where the shell that runs a kill command is ended by a signal before it
  exits (\<^verbatim>\<open>pkill -f\<close> matches command lines, and the command line of that shell contains
  the pattern): the stream closes with code \<^verbatim>\<open>null\<close>. Every other command succeeds.
\<close>

definition exec_kill_signalled :: "event list \<Rightarrow> string \<Rightarrow> string + exec_result" where
  "exec_kill_signalled h c =
     Inr \<lparr>code = (if suffix ''|| true'' c then None else Some 0), outputText = []\<rparr>"

text \<open>A \<^verbatim>\<open>config\<close> directory with the two hosts files.\<close>

definition example_files :: "string \<Rightarrow> string option" where
  "example_files name =
     (if name = HOSTS_FILE_NAMES_BLOCKED then Some ''0.0.0.0 lichess.org''
      else if name = HOSTS_FILE_NAMES_ALLOWED then Some ''# 0.0.0.0 lichess.org''
      else None)"

text \<open>
  A remote side that answers the upload command and the two kill commands with the given
  exit codes and no output.
\<close>

definition exec_exit_codes :: "int \<Rightarrow> int \<Rightarrow> int \<Rightarrow> event list \<Rightarrow> string \<Rightarrow> string + exec_result" where
  "exec_exit_codes uploadCode firefoxCode braveCode h c =
     Inr \<lparr>code = Some (if c = buildBrowserKillCommand [''firefox''] then firefoxCode
                       else if c = buildBrowserKillCommand [''brave''] then braveCode
                       else uploadCode),
          outputText = []\<rparr>"


text \<open>An environment whose connection gets ready, and a state to start from.\<close>

definition example_env :: "(event list \<Rightarrow> string \<Rightarrow> string + exec_result) \<Rightarrow> env" where
  "example_env exec =
     \<lparr>connect_result = Ready, remote_exec = exec, read_file = example_files, prompt_answer = []\<rparr>"

definition example_world :: world where
  "example_world = \<lparr>suspendChess_flag = True, password = ''secret'', events = []\<rparr>"

text \<open>The two requests of the end-to-end scenarios C and D.\<close>

definition hello_body :: request_body where
  "hello_body =
     \<lparr>body_message = Some ''hello'', body_title = None, body_priority = None, body_tags = Some []\<rparr>"

definition block_body :: request_body where
  "block_body =
     \<lparr>body_message = Some ''block this now'', body_title = None, body_priority = None,
      body_tags = Some []\<rparr>"

section \<open>Properties of the builders\<close>

lemma escapeForShell_spec_escape: "escapeForShell s = spec_escape s"
  by (induction s) (simp_all add: escapeForShell_def spec_escape_def escaped_quote_def)

lemma sh_literal_escaped: "sh_literal True (escapeForShell s @ [quote]) = Some s"
  by (induction s) (simp_all add: escapeForShell_def escaped_quote_def)

text \<open>
  Claim C1. For every string \<open>s\<close>, \<open>escapeForShell s\<close> is \<open>s\<close> with every single quote replaced
  by the four characters quote, backslash, quote, quote; and the shell reads the result, put
  between single quotes, as exactly \<open>s\<close>: no quote ends early and nothing is left unquoted.
\<close>

theorem escapeForShell_correct:
  "escapeForShell s = spec_escape s \<and>
   sh_literal False ([quote] @ escapeForShell s @ [quote]) = Some s"
  using escapeForShell_spec_escape [of s] sh_literal_escaped [of s] by simp

theorem escapeForShell_correct_witness:
  "escapeForShell ''it's'' = ''it'' @ [quote, backslash, quote, quote] @ ''s'' \<and>
   sh_literal False ([quote] @ escapeForShell ''it's'' @ [quote]) = Some ''it's''"
  using escapeForShell_correct [of "''it's''"] by (simp add: spec_escape_def)




text \<open>
  Claim C8. For every secret and inner command the privileged-command builder returns
  \<^verbatim>\<open>echo '<secret>' | sudo -S bash -c '<inner command>'\<close>, the secret and the inner command
  each escaped on its own by the single-quote escaping of \<open>escapeForShell\<close>.
\<close>

theorem buildSudoCommand_correct:
  "buildSudoCommand secret inner =
     ''echo '' @ [quote] @ escapeForShell secret @ [quote] @
     '' | sudo -S bash -c '' @ [quote] @ escapeForShell inner @ [quote] \<and>
   escapeForShell secret = spec_escape secret \<and>
   escapeForShell inner = spec_escape inner"
  using escapeForShell_spec_escape [of secret] escapeForShell_spec_escape [of inner]
  by (simp add: buildSudoCommand_def escapeForShell_def)

section \<open>Properties of the parser\<close>

text \<open>
  Claim C5. Tags come before the message text: whatever the message, the parser answers
  block when the lower-cased tag list contains \<^verbatim>\<open>block\<close> or \<^verbatim>\<open>suspend\<close>, and allow when it
  contains \<^verbatim>\<open>allow\<close> or \<^verbatim>\<open>unblock\<close> and neither block tag; the two examples of the
  specification hold.
\<close>

theorem parseChessCommand_tags_first:
  "(''block'' \<in> set (tagsList tags) \<or> ''suspend'' \<in> set (tagsList tags)
      \<longrightarrow> parseChessCommand message tags = Some True) \<and>
   ((''allow'' \<in> set (tagsList tags) \<or> ''unblock'' \<in> set (tagsList tags)) \<and>
    ''block'' \<notin> set (tagsList tags) \<and> ''suspend'' \<notin> set (tagsList tags)
      \<longrightarrow> parseChessCommand message tags = Some False) \<and>
   parseChessCommand (Some ''allow the sites'') (Some [''block'']) = Some True \<and>
   parseChessCommand (Some ''block the sites'') (Some [''allow'']) = Some False"
proof -
  have ex1: "parseChessCommand (Some ''allow the sites'') (Some [''block'']) = Some True"
    by code_simp
  have ex2: "parseChessCommand (Some ''block the sites'') (Some [''allow'']) = Some False"
    by code_simp
  show ?thesis using ex1 ex2 by (simp add: parseChessCommand_def arr_includes_def)
qed

theorem parseChessCommand_tags_first_witness:
  "''suspend'' \<in> set (tagsList (Some [''Chess'', ''SUSPEND''])) \<and>
   parseChessCommand (Some ''please allow'') (Some [''Chess'', ''SUSPEND'']) = Some True \<and>
   ''unblock'' \<in> set (tagsList (Some [''UnBlock''])) \<and>
   ''block'' \<notin> set (tagsList (Some [''UnBlock''])) \<and>
   ''suspend'' \<notin> set (tagsList (Some [''UnBlock''])) \<and>
   parseChessCommand (Some ''suspend it'') (Some [''UnBlock'']) = Some False"
proof -
  have t1: "tagsList (Some [''Chess'', ''SUSPEND'']) = [''chess'', ''suspend'']"
    by code_simp
  have t2: "tagsList (Some [''UnBlock'']) = [''unblock'']"
    by code_simp
  show ?thesis
    using parseChessCommand_tags_first [of "Some [''Chess'', ''SUSPEND'']" "Some ''please allow''"]
      parseChessCommand_tags_first [of "Some [''UnBlock'']" "Some ''suspend it''"]
    by (simp add: t1 t2)
qed

text \<open>
  Claim C6. The block words are looked for before the allow words, so a message without
  tags whose lower-cased text contains \<^verbatim>\<open>block\<close> is a block command, also when the word is
  \<^verbatim>\<open>unblock\<close>: \<^verbatim>\<open>Unblock chess websites\<close> blocks.
\<close>

theorem parseChessCommand_block_substring_first:
  "((tags = None \<or> tags = Some []) \<and> str_includes (toLowerCase m) ''block''
      \<longrightarrow> parseChessCommand (Some m) tags = Some True) \<and>
   parseChessCommand (Some ''Unblock chess websites'') (Some []) = Some True"
proof -
  have ex: "parseChessCommand (Some ''Unblock chess websites'') (Some []) = Some True"
    by code_simp
  show ?thesis
    using ex by (auto simp add: parseChessCommand_def arr_includes_def tagsList_def messageLower_def)
qed

theorem parseChessCommand_block_substring_first_witness:
  "str_includes (toLowerCase ''Please UNBLOCK now'') ''block'' \<and>
   parseChessCommand (Some ''Please UNBLOCK now'') None = Some True"
proof -
  have h: "str_includes (toLowerCase ''Please UNBLOCK now'') ''block''"
    by code_simp
  show ?thesis
    using h parseChessCommand_block_substring_first [of None "''Please UNBLOCK now''"] by simp
qed

section \<open>Effects of the orchestrator's steps\<close>

lemma emit_simps [simp]:
  "events (emit e w) = events w @ [e]"
  "suspendChess_flag (emit e w) = suspendChess_flag w"
  "password (emit e w) = password w"
  by (simp_all add: emit_def)

lemma log_simps [simp]:
  "events (log l w) = events w @ [Console l]"
  "suspendChess_flag (log l w) = suspendChess_flag w"
  "password (log l w) = password w"
  by (simp_all add: log_def)

lemma executed_append [simp]: "executed (xs @ ys) = executed xs @ executed ys"
  by (induction xs rule: executed.induct) simp_all

lemma extends_by_refl [simp]: "extends_by P w w"
  by (simp add: extends_by_def)

lemma extends_by_trans: "extends_by P w w' \<Longrightarrow> extends_by P w' w'' \<Longrightarrow> extends_by P w w''"
  by (auto simp add: extends_by_def)

lemma extends_by_emit: "P e \<Longrightarrow> extends_by P w (emit e w)"
  by (simp add: extends_by_def)

lemma extends_by_log: "P (Console l) \<Longrightarrow> extends_by P w (log l w)"
  by (simp add: extends_by_def)

lemma extends_by_flag [simp]:
  "extends_by P w (w'\<lparr>suspendChess_flag := b\<rparr>) = extends_by P w w'"
  "extends_by P (w\<lparr>suspendChess_flag := b\<rparr>) w' = extends_by P w w'"
  by (simp_all add: extends_by_def)

lemma executeCommand_Inl:
  "remote_exec en (events w) c = Inl m \<Longrightarrow>
   executeCommand en c w = (Inl (ChannelError m), emit (Exec c) w)"
  by (simp add: executeCommand_def executeSSHCommand_def)

lemma executeCommand_Inr:
  "remote_exec en (events w) c = Inr r \<Longrightarrow>
   executeCommand en c w =
     (Inr r, if outputText r \<noteq> [] then log (CommandOutput (trim (outputText r))) (emit (Exec c) w)
             else emit (Exec c) w)"
  by (simp add: executeCommand_def executeSSHCommand_def)

lemma executeCommand_result:
  "fst (executeCommand en c w) =
     (case remote_exec en (events w) c of Inl m \<Rightarrow> Inl (ChannelError m) | Inr r \<Rightarrow> Inr r)"
  by (simp add: executeCommand_def executeSSHCommand_def split: sum.splits)

lemma executeCommand_extends:
  "P (Exec c) \<Longrightarrow> (\<And>t. P (Console (CommandOutput t))) \<Longrightarrow>
   extends_by P w (snd (executeCommand en c w))"
  by (simp add: executeCommand_def executeSSHCommand_def extends_by_def split: sum.splits)

lemma executeCommand_frame:
  "suspendChess_flag (snd (executeCommand en c w)) = suspendChess_flag w"
  "password (snd (executeCommand en c w)) = password w"
  "executed (events (snd (executeCommand en c w))) = executed (events w) @ [c]"
  by (simp_all add: executeCommand_def executeSSHCommand_def split: sum.splits)

lemma establish_extends:
  "P Prompt \<Longrightarrow> P Connect \<Longrightarrow> (\<And>l. \<not> kill_exit_code_line (Console l) \<Longrightarrow> P (Console l)) \<Longrightarrow>
   extends_by P w (snd (establishSSHConnection en w))"
  by (simp add: establishSSHConnection_def extends_by_def Let_def split: connect_event.splits)

lemma establish_frame:
  "suspendChess_flag (snd (establishSSHConnection en w)) = suspendChess_flag w"
  "executed (events (snd (establishSSHConnection en w))) = executed (events w)"
  by (simp_all add: establishSSHConnection_def Let_def split: connect_event.splits)

lemma read_extends:
  "(\<And>l. \<not> kill_exit_code_line (Console l) \<Longrightarrow> P (Console l)) \<Longrightarrow>
   extends_by P w (snd (readLocalHostsFile en b w))"
  by (simp add: readLocalHostsFile_def extends_by_def Let_def split: sum.splits)

lemma read_frame:
  "suspendChess_flag (snd (readLocalHostsFile en b w)) = suspendChess_flag w"
  "password (snd (readLocalHostsFile en b w)) = password w"
  "executed (events (snd (readLocalHostsFile en b w))) = executed (events w)"
  by (simp_all add: readLocalHostsFile_def Let_def split: sum.splits)

lemma upload_extends:
  "(\<And>c. P (Exec c)) \<Longrightarrow> (\<And>l. \<not> kill_exit_code_line (Console l) \<Longrightarrow> P (Console l)) \<Longrightarrow>
   extends_by P w (snd (uploadHostsFile en content w))"
  by (simp add: uploadHostsFile_def executeCommand_def executeSSHCommand_def extends_by_def Let_def split: sum.splits)

lemma upload_frame:
  "suspendChess_flag (snd (uploadHostsFile en content w)) = suspendChess_flag w"
  "executed (events (snd (uploadHostsFile en content w))) =
     executed (events w) @ [buildCompleteUploadCommand (password w) content]"
  by (simp_all add: uploadHostsFile_def executeCommand_def executeSSHCommand_def Let_def split: sum.splits)

lemma kill_extends:
  "(\<And>c. P (Exec c)) \<Longrightarrow> (\<And>l. P (Console l)) \<Longrightarrow>
   extends_by P w (snd (killBrowserProcess en b w))"
  by (simp add: killBrowserProcess_def executeCommand_def executeSSHCommand_def extends_by_def Let_def split: sum.splits)

lemma kill_frame:
  "suspendChess_flag (snd (killBrowserProcess en b w)) = suspendChess_flag w"
  "executed (events (snd (killBrowserProcess en b w))) =
     executed (events w) @ [buildBrowserKillCommand [b]]"
  by (simp_all add: killBrowserProcess_def executeCommand_def executeSSHCommand_def Let_def split: sum.splits)

lemma buildBrowserKillCommand_suffix: "suffix ''|| true'' (buildBrowserKillCommand names)"
proof -
  have "suffix ''|| true'' ((''pkill -f '' @ [quote] @ join names '' '' @ [quote] @ '' '') @ ''|| true'')"
    by (rule suffix_appendI) simp
  then show ?thesis by (simp add: buildBrowserKillCommand_def)
qed

lemma kill_or_true:
  assumes "or_true_exits_zero en"
  shows "killBrowserProcess en b w =
     (case remote_exec en (events w) (buildBrowserKillCommand [b]) of
        Inl m \<Rightarrow> (Inl (ChannelError m),
                  log (ErrorKilling b (ChannelError m)) (emit (Exec (buildBrowserKillCommand [b])) w))
      | Inr r \<Rightarrow> (Inr (),
                  log (case code r of None \<Rightarrow> FailedToKill b None | Some n \<Rightarrow> KilledSuccessfully b)
                    (snd (executeCommand en (buildBrowserKillCommand [b]) w))))"
proof (cases "remote_exec en (events w) (buildBrowserKillCommand [b])")
  case (Inl m)
  then show ?thesis
    by (simp add: killBrowserProcess_def executeCommand_Inl)
next
  case (Inr r)
  show ?thesis
  proof (cases "code r")
    case None
    then show ?thesis
      using Inr by (simp add: killBrowserProcess_def executeCommand_Inr)
  next
    case (Some n)
    have "n = 0"
      using assms Inr Some buildBrowserKillCommand_suffix [of "[b]"]
      unfolding or_true_exits_zero_def by blast
    then show ?thesis
      using Inr Some by (simp add: killBrowserProcess_def executeCommand_Inr PKILL_SUCCESS_CODE_def)
  qed
qed

lemma kill_extends_or_true:
  assumes "or_true_exits_zero en" and "\<And>c. P (Exec c)"
    and "\<And>l. \<not> kill_exit_code_line (Console l) \<Longrightarrow> P (Console l)"
  shows "extends_by P w (snd (killBrowserProcess en b w))"
proof -
  have "extends_by P w (snd (executeCommand en (buildBrowserKillCommand [b]) w))"
    by (rule executeCommand_extends) (simp_all add: assms)
  then show ?thesis
    using assms(2,3)
    by (auto simp add: kill_or_true [OF assms(1)] extends_by_def split: sum.splits option.splits)
qed

lemma loop_extends:
  "(\<And>c. P (Exec c)) \<Longrightarrow> (\<And>l. P (Console l)) \<Longrightarrow>
   extends_by P w (snd (killBrowsers_loop en names w))"
proof (induction names arbitrary: w)
  case Nil
  show ?case by simp
next
  case (Cons b names)
  have step: "extends_by P w (snd (killBrowserProcess en b w))"
    by (rule kill_extends) (simp_all add: Cons.prems)
  show ?case
  proof (cases "killBrowserProcess en b w")
    case (Pair r w')
    show ?thesis
    proof (cases r)
      case (Inl e)
      then show ?thesis using step Pair by simp
    next
      case (Inr u)
      have "extends_by P w' (snd (killBrowsers_loop en names w'))"
        by (rule Cons.IH) (simp_all add: Cons.prems)
      then show ?thesis using step Pair Inr by (auto intro: extends_by_trans)
    qed
  qed
qed

lemma loop_extends_or_true:
  assumes "or_true_exits_zero en" and "\<And>c. P (Exec c)"
    and "\<And>l. \<not> kill_exit_code_line (Console l) \<Longrightarrow> P (Console l)"
  shows "extends_by P w (snd (killBrowsers_loop en names w))"
proof (induction names arbitrary: w)
  case Nil
  show ?case by simp
next
  case (Cons b names)
  have step: "extends_by P w (snd (killBrowserProcess en b w))"
    by (rule kill_extends_or_true) (simp_all add: assms)
  show ?case
  proof (cases "killBrowserProcess en b w")
    case (Pair r w')
    show ?thesis
    proof (cases r)
      case (Inl e)
      then show ?thesis using step Pair by simp
    next
      case (Inr u)
      then show ?thesis using step Pair Cons.IH [of w'] by (auto intro: extends_by_trans)
    qed
  qed
qed

lemma loop_flag:
  "suspendChess_flag (snd (killBrowsers_loop en names w)) = suspendChess_flag w"
proof (induction names arbitrary: w)
  case Nil
  show ?case by simp
next
  case (Cons b names)
  show ?case
  proof (cases "killBrowserProcess en b w")
    case (Pair r w')
    have "suspendChess_flag w' = suspendChess_flag w"
      using kill_frame(1) [of en b w] Pair by simp
    then show ?thesis
      using Pair Cons.IH [of w'] by (cases r) simp_all
  qed
qed



lemma timer_ticks_zero: "timer_ticks 0 0 b w = log (TimerCompleted b) w"
  by (subst timer_ticks.simps) simp

lemma startTimer_eq:
  "startTimer b w =
     log (TimerCompleted b)
       (log (DisplayUpdates updateIntervalSeconds) (log (TimerStarted waitTimeMinutes b) w))"
  by (simp add: startTimer_def Let_def waitTimeMinutes_def timer_ticks_zero)

lemma try_compose:
  assumes est: "\<And>w0. R w0 (snd (establishSSHConnection en w0))"
    and rd: "\<And>w0 b. R w0 (snd (readLocalHostsFile en b w0))"
    and up: "\<And>w0 c. R w0 (snd (uploadHostsFile en c w0))"
    and kl: "\<And>w0. R w0 (snd (killAllBrowsers en w0))"
    and lg: "\<And>w0. R w0 (log AllCommandsExecuted w0)"
    and trans: "\<And>a b c. R a b \<Longrightarrow> R b c \<Longrightarrow> R a c"
  shows "R w (snd (executeRemoteCommands_try en w))"
proof -
  obtain r1 w1 where a: "establishSSHConnection en w = (r1, w1)" by fastforce
  have s1: "R w w1" using est [of w] a by simp
  show ?thesis
  proof (cases r1)
    case (Inl e)
    then show ?thesis using a s1 by (simp add: executeRemoteCommands_try_def)
  next
    case r1: (Inr u1)
    obtain r2 w2 where b: "readLocalHostsFile en (suspendChess_flag w1) w1 = (r2, w2)"
      by fastforce
    have s2: "R w w2" using trans [OF s1] rd [of w1 "suspendChess_flag w1"] b by simp
    show ?thesis
    proof (cases r2)
      case (Inl e)
      then show ?thesis using a r1 b s2 by (simp add: executeRemoteCommands_try_def)
    next
      case r2: (Inr content)
      obtain r3 w3 where c: "uploadHostsFile en content w2 = (r3, w3)" by fastforce
      have s3: "R w w3" using trans [OF s2] up [of w2 content] c by simp
      show ?thesis
      proof (cases r3)
        case (Inl e)
        then show ?thesis using a r1 b r2 c s3 by (simp add: executeRemoteCommands_try_def)
      next
        case r3: (Inr u3)
        obtain r4 w4 where d: "killAllBrowsers en w3 = (r4, w4)" by fastforce
        have s4: "R w w4" using trans [OF s3] kl [of w3] d by simp
        have s5: "R w (log AllCommandsExecuted w4)" using trans [OF s4] lg [of w4] by simp
        show ?thesis
          using a r1 b r2 c r3 d s4 s5
          by (cases r4) (simp_all add: executeRemoteCommands_try_def)
      qed
    qed
  qed
qed

lemma try_extends:
  assumes "P Prompt" and "P Connect" and "\<And>c. P (Exec c)" and "\<And>l. P (Console l)"
  shows "extends_by P w (snd (executeRemoteCommands_try en w))"
proof (rule try_compose)
  show "extends_by P w0 (snd (establishSSHConnection en w0))" for w0
    by (rule establish_extends) (simp_all add: assms)
  show "extends_by P w0 (snd (readLocalHostsFile en b w0))" for w0 b
    by (rule read_extends) (simp add: assms)
  show "extends_by P w0 (snd (uploadHostsFile en c w0))" for w0 c
    by (rule upload_extends) (simp_all add: assms)
  show "extends_by P w0 (snd (killAllBrowsers en w0))" for w0
    unfolding killAllBrowsers_def by (rule loop_extends) (simp_all add: assms)
  show "extends_by P w0 (log AllCommandsExecuted w0)" for w0
    by (rule extends_by_log) (simp add: assms)
  show "extends_by P a b \<Longrightarrow> extends_by P b c \<Longrightarrow> extends_by P a c" for a b c
    by (rule extends_by_trans)
qed

lemma try_extends_or_true:
  assumes "or_true_exits_zero en" and "P Prompt" and "P Connect" and "\<And>c. P (Exec c)"
    and "\<And>l. \<not> kill_exit_code_line (Console l) \<Longrightarrow> P (Console l)"
  shows "extends_by P w (snd (executeRemoteCommands_try en w))"
proof (rule try_compose)
  show "extends_by P w0 (snd (establishSSHConnection en w0))" for w0
    by (rule establish_extends) (simp_all add: assms)
  show "extends_by P w0 (snd (readLocalHostsFile en b w0))" for w0 b
    by (rule read_extends) (simp add: assms)
  show "extends_by P w0 (snd (uploadHostsFile en c w0))" for w0 c
    by (rule upload_extends) (simp_all add: assms)
  show "extends_by P w0 (snd (killAllBrowsers en w0))" for w0
    unfolding killAllBrowsers_def by (rule loop_extends_or_true) (simp_all add: assms)
  show "extends_by P w0 (log AllCommandsExecuted w0)" for w0
    by (rule extends_by_log) (simp add: assms)
  show "extends_by P a b \<Longrightarrow> extends_by P b c \<Longrightarrow> extends_by P a c" for a b c
    by (rule extends_by_trans)
qed

lemma try_flag:
  "suspendChess_flag (snd (executeRemoteCommands_try en w)) = suspendChess_flag w"
proof (rule try_compose [where R = "\<lambda>a b. suspendChess_flag b = suspendChess_flag a"])
qed (simp_all add: establish_frame read_frame upload_frame killAllBrowsers_def loop_flag)

lemma executeRemoteCommands_events:
  "events (snd (executeRemoteCommands en w)) =
     events (snd (executeRemoteCommands_try en w)) @ [ConnEnd]"
  by (simp add: executeRemoteCommands_def split: prod.splits)

lemma executeRemoteCommands_fst:
  "fst (executeRemoteCommands en w) = fst (executeRemoteCommands_try en w)"
  by (simp add: executeRemoteCommands_def split: prod.splits)

lemma executeRemoteCommands_flag:
  "suspendChess_flag (snd (executeRemoteCommands en w)) = suspendChess_flag w"
  using try_flag [of en w]
  by (cases "executeRemoteCommands_try en w") (simp add: executeRemoteCommands_def)


section \<open>The upload step\<close>

text \<open>The first steps of a run in the example environment.\<close>

lemma example_established:
  "establishSSHConnection (example_env exec) example_world =
     (Inr (), example_world\<lparr>events := [Console AttemptingConnection, Connect, Console ConnectionEstablished]\<rparr>)"
  by (simp add: establishSSHConnection_def example_env_def example_world_def Let_def log_def emit_def)

lemma example_read:
  "readLocalHostsFile (example_env exec) True
      (example_world\<lparr>events := [Console AttemptingConnection, Connect, Console ConnectionEstablished]\<rparr>) =
     (Inr ''0.0.0.0 lichess.org'',
      example_world\<lparr>events := [Console AttemptingConnection, Connect, Console ConnectionEstablished,
        Console (UsingHostsFile ''hostsuncommented''), Console (LocalPath ''hostsuncommented''),
        Console (ReadSuccess 19)]\<rparr>)"
  by (simp add: readLocalHostsFile_def readHostsFile_def example_env_def example_files_def
      example_world_def Let_def log_def emit_def hostsFileName_def HOSTS_FILE_NAMES_BLOCKED_def)

text \<open>
  Claim C3. Every run of \<open>executeRemoteCommands\<close> ends the connection, once and as its last
  effect, whatever the result. When the connection is ready, the hosts file is read and the
  upload command returns a non-zero exit code, the run fails with the upload error that
  carries this code, and the upload command is the only command executed: no kill command
  runs.
\<close>

theorem executeRemoteCommands_upload_failure:
  "(\<exists>evs. events (snd (executeRemoteCommands en w)) = events w @ evs @ [ConnEnd] \<and>
          ConnEnd \<notin> set evs) \<and>
   (establishSSHConnection en w = (Inr (), w1) \<and>
    readLocalHostsFile en (suspendChess_flag w1) w1 = (Inr hostsContent, w2) \<and>
    remote_exec en (events w2) (buildCompleteUploadCommand (password w2) hostsContent) = Inr result \<and>
    code result \<noteq> Some 0
      \<longrightarrow> fst (executeRemoteCommands en w) = Inl (UploadFailed (code result)) \<and>
          executed (events (snd (executeRemoteCommands en w))) =
            executed (events w) @ [buildCompleteUploadCommand (password w2) hostsContent])"
proof (intro conjI impI)
  have "extends_by (\<lambda>e. e \<noteq> ConnEnd) w (snd (executeRemoteCommands_try en w))"
    by (rule try_extends) simp_all
  then obtain evs where evs: "events (snd (executeRemoteCommands_try en w)) = events w @ evs"
      "list_all (\<lambda>e. e \<noteq> ConnEnd) evs"
    unfolding extends_by_def by blast
  have "ConnEnd \<notin> set evs" using evs(2) by (auto simp add: list_all_iff)
  then show "\<exists>evs. events (snd (executeRemoteCommands en w)) = events w @ evs @ [ConnEnd] \<and>
          ConnEnd \<notin> set evs"
    using evs(1) by (simp add: executeRemoteCommands_events)
next
  assume h: "establishSSHConnection en w = (Inr (), w1) \<and>
    readLocalHostsFile en (suspendChess_flag w1) w1 = (Inr hostsContent, w2) \<and>
    remote_exec en (events w2) (buildCompleteUploadCommand (password w2) hostsContent) = Inr result \<and>
    code result \<noteq> Some 0"
  have up: "uploadHostsFile en hostsContent w2 =
      (Inl (UploadFailed (code result)),
       snd (executeCommand en (buildCompleteUploadCommand (password w2) hostsContent) w2))"
    using h by (simp add: uploadHostsFile_def executeCommand_Inr)
  have tr: "executeRemoteCommands_try en w =
      (Inl (UploadFailed (code result)),
       snd (executeCommand en (buildCompleteUploadCommand (password w2) hostsContent) w2))"
    using h up by (simp add: executeRemoteCommands_try_def)
  show "fst (executeRemoteCommands en w) = Inl (UploadFailed (code result))"
    using tr by (simp add: executeRemoteCommands_fst)
  have e1: "executed (events w1) = executed (events w)"
    using establish_frame(2) [of en w] h by simp
  have e2: "executed (events w2) = executed (events w1)"
    using read_frame(3) [of en "suspendChess_flag w1" w1] h by simp
  show "executed (events (snd (executeRemoteCommands en w))) =
            executed (events w) @ [buildCompleteUploadCommand (password w2) hostsContent]"
    using tr e1 e2 by (simp add: executeRemoteCommands_events executeCommand_frame)
qed

text \<open>The upload exits with code 2: scenario B.\<close>

theorem executeRemoteCommands_upload_failure_witness:
  "fst (executeRemoteCommands (example_env (exec_exit_codes 2 0 0)) example_world) =
     Inl (UploadFailed (Some 2)) \<and>
   executed (events (snd (executeRemoteCommands (example_env (exec_exit_codes 2 0 0)) example_world))) =
     [buildCompleteUploadCommand ''secret'' ''0.0.0.0 lichess.org'']"
proof -
  let ?en = "example_env (exec_exit_codes 2 0 0)"
  let ?w1 = "example_world\<lparr>events := [Console AttemptingConnection, Connect, Console ConnectionEstablished]\<rparr>"
  let ?w2 = "example_world\<lparr>events := [Console AttemptingConnection, Connect, Console ConnectionEstablished,
        Console (UsingHostsFile ''hostsuncommented''), Console (LocalPath ''hostsuncommented''),
        Console (ReadSuccess 19)]\<rparr>"
  let ?r = "\<lparr>code = Some 2, outputText = []\<rparr>"
  have f: "suspendChess_flag ?w1 = True" "password ?w2 = ''secret''" "executed (events example_world) = []"
    by (simp_all add: example_world_def)
  have neq: "buildCompleteUploadCommand ''secret'' ''0.0.0.0 lichess.org'' \<noteq> buildBrowserKillCommand [b]" for b
    by (simp add: buildCompleteUploadCommand_def buildSudoCommand_def buildBrowserKillCommand_def)
  have x: "remote_exec ?en (events ?w2) (buildCompleteUploadCommand (password ?w2) ''0.0.0.0 lichess.org'') = Inr ?r"
    by (simp add: f example_env_def exec_exit_codes_def neq)
  show ?thesis
    using executeRemoteCommands_upload_failure [of ?en example_world ?w1 "''0.0.0.0 lichess.org''" ?w2 ?r]
      example_established [of "exec_exit_codes 2 0 0"] example_read [of "exec_exit_codes 2 0 0"] x
    by (simp add: f)
qed


section \<open>Failures while killing processes\<close>




section \<open>What the exit code of a kill command shows\<close>

lemma filter_extends:
  assumes "extends_by (\<lambda>e. \<not> Q e) w w'"
  shows "filter Q (events w') = filter Q (events w)"
proof -
  obtain evs where evs: "events w' = events w @ evs" "list_all (\<lambda>e. \<not> Q e) evs"
    using assms unfolding extends_by_def by blast
  have "filter Q evs = []" using evs(2) by (simp add: list_all_iff)
  then show ?thesis using evs(1) by simp
qed

text \<open>
  Claim C9 as stated fails: the kill command for \<^verbatim>\<open>firefox\<close> ends in \<^verbatim>\<open>|| true\<close> and the
  remote shell follows the OR-list rule, but the command is ended by a signal and the
  stream closes with code \<^verbatim>\<open>null\<close>: the run takes the other-code branch and writes
  \<^verbatim>\<open>Failed to kill firefox, exit code: null\<close>.
\<close>

theorem kill_ended_by_signal_logs_failure:
  "or_true_exits_zero (example_env exec_kill_signalled) \<and>
   suffix ''|| true'' (buildBrowserKillCommand [''firefox'']) \<and>
   remote_exec (example_env exec_kill_signalled) (events example_world)
     (buildBrowserKillCommand [''firefox'']) = Inr \<lparr>code = None, outputText = []\<rparr> \<and>
   killBrowserProcess (example_env exec_kill_signalled) ''firefox'' example_world =
     (Inr (), example_world\<lparr>events :=
        [Exec (buildBrowserKillCommand [''firefox'']), Console (FailedToKill ''firefox'' None)]\<rparr>) \<and>
   fst (executeRemoteCommands (example_env exec_kill_signalled) example_world) = Inr () \<and>
   Console (FailedToKill ''firefox'' None) \<in>
     set (events (snd (executeRemoteCommands (example_env exec_kill_signalled) example_world)))"
proof -
  have h: "or_true_exits_zero (example_env exec_kill_signalled)"
    by (auto simp add: or_true_exits_zero_def example_env_def exec_kill_signalled_def)
  have s: "suffix ''|| true'' (buildBrowserKillCommand [''firefox''])"
    by (rule buildBrowserKillCommand_suffix)
  have x: "remote_exec (example_env exec_kill_signalled) (events example_world)
      (buildBrowserKillCommand [''firefox'']) = Inr \<lparr>code = None, outputText = []\<rparr>"
    using s by (simp add: example_env_def exec_kill_signalled_def)
  have k: "killBrowserProcess (example_env exec_kill_signalled) ''firefox'' example_world =
     (Inr (), example_world\<lparr>events :=
        [Exec (buildBrowserKillCommand [''firefox'']), Console (FailedToKill ''firefox'' None)]\<rparr>)"
    using x by (simp add: killBrowserProcess_def executeCommand_Inr example_world_def log_def emit_def)
  have r: "fst (executeRemoteCommands (example_env exec_kill_signalled) example_world) = Inr () \<and>
   Console (FailedToKill ''firefox'' None) \<in>
     set (events (snd (executeRemoteCommands (example_env exec_kill_signalled) example_world)))"
    by code_simp
  show ?thesis using h s x k r by simp
qed

text \<open>
  Claim C9, amended. The command that \<open>killBrowserProcess\<close> executes comes from
  \<open>buildBrowserKillCommand\<close> and ends in \<^verbatim>\<open>|| true\<close>. On a remote shell that follows the
  OR-list rule (such a command, when it exits with a status, exits with 0),
  \<open>killBrowserProcess\<close> takes the success branch whenever the command returns an exit status,
  whatever \<^verbatim>\<open>pkill\<close> did; the exit-code-1 branch is never taken, and the other-code branch
  only when there is no exit status (code \<^verbatim>\<open>null\<close>). A run of \<open>executeRemoteCommands\<close>
  never writes a line that shows a non-zero exit status of a kill command.
\<close>

theorem kill_exit_status_unobservable:
  "suffix ''|| true'' (buildBrowserKillCommand [b]) \<and>
   executed (events (snd (killBrowserProcess en b w))) =
     executed (events w) @ [buildBrowserKillCommand [b]] \<and>
   (or_true_exits_zero en \<longrightarrow>
      killBrowserProcess en b w =
        (case remote_exec en (events w) (buildBrowserKillCommand [b]) of
           Inl m \<Rightarrow> (Inl (ChannelError m),
                     log (ErrorKilling b (ChannelError m)) (emit (Exec (buildBrowserKillCommand [b])) w))
         | Inr r \<Rightarrow> (Inr (),
                     log (case code r of None \<Rightarrow> FailedToKill b None
                                       | Some n \<Rightarrow> KilledSuccessfully b)
                       (snd (executeCommand en (buildBrowserKillCommand [b]) w)))) \<and>
      filter kill_exit_code_line (events (snd (executeRemoteCommands en w))) =
        filter kill_exit_code_line (events w))"
proof (intro conjI impI)
  show "suffix ''|| true'' (buildBrowserKillCommand [b])"
    by (rule buildBrowserKillCommand_suffix)
  show "executed (events (snd (killBrowserProcess en b w))) =
     executed (events w) @ [buildBrowserKillCommand [b]]"
    by (rule kill_frame(2))
next
  assume h: "or_true_exits_zero en"
  show "killBrowserProcess en b w =
        (case remote_exec en (events w) (buildBrowserKillCommand [b]) of
           Inl m \<Rightarrow> (Inl (ChannelError m),
                     log (ErrorKilling b (ChannelError m)) (emit (Exec (buildBrowserKillCommand [b])) w))
         | Inr r \<Rightarrow> (Inr (),
                     log (case code r of None \<Rightarrow> FailedToKill b None
                                       | Some n \<Rightarrow> KilledSuccessfully b)
                       (snd (executeCommand en (buildBrowserKillCommand [b]) w))))"
    by (rule kill_or_true [OF h])
  have "extends_by (\<lambda>e. \<not> kill_exit_code_line e) w (snd (executeRemoteCommands_try en w))"
    by (rule try_extends_or_true [OF h]) simp_all
  then have "filter kill_exit_code_line (events (snd (executeRemoteCommands_try en w))) =
      filter kill_exit_code_line (events w)"
    by (rule filter_extends)
  then show "filter kill_exit_code_line (events (snd (executeRemoteCommands en w))) =
        filter kill_exit_code_line (events w)"
    by (simp add: executeRemoteCommands_events)
qed

text \<open>
  \<^verbatim>\<open>pkill\<close> finds no process (status 1): the run goes through both kill commands and reports
  two successful kills.
\<close>

theorem kill_exit_status_unobservable_witness:
  "or_true_exits_zero (example_env (exec_or_true 1)) \<and>
   killBrowserProcess (example_env (exec_or_true 1)) ''firefox'' example_world =
     (Inr (), example_world\<lparr>events :=
        [Exec (buildBrowserKillCommand [''firefox'']), Console (KilledSuccessfully ''firefox'')]\<rparr>) \<and>
   fst (executeRemoteCommands (example_env (exec_or_true 1)) example_world) = Inr () \<and>
   executed (events (snd (executeRemoteCommands (example_env (exec_or_true 1)) example_world))) =
     [buildCompleteUploadCommand ''secret'' ''0.0.0.0 lichess.org'',
      buildBrowserKillCommand [''firefox''], buildBrowserKillCommand [''brave'']] \<and>
   Console (KilledSuccessfully ''brave'') \<in>
     set (events (snd (executeRemoteCommands (example_env (exec_or_true 1)) example_world))) \<and>
   filter kill_exit_code_line
     (events (snd (executeRemoteCommands (example_env (exec_or_true 1)) example_world))) = []"
proof -
  have h: "or_true_exits_zero (example_env (exec_or_true 1))"
    by (auto simp add: or_true_exits_zero_def example_env_def exec_or_true_def or_list_status_def)
  have s: "suffix ''|| true'' (buildBrowserKillCommand [''firefox''])"
    by (rule buildBrowserKillCommand_suffix)
  have x: "remote_exec (example_env (exec_or_true 1)) (events example_world)
      (buildBrowserKillCommand [''firefox'']) = Inr \<lparr>code = Some 0, outputText = []\<rparr>"
    using s by (simp add: example_env_def exec_or_true_def or_list_status_def)
  have e: "events example_world = []" by (simp add: example_world_def)
  have r: "fst (executeRemoteCommands (example_env (exec_or_true 1)) example_world) = Inr () \<and>
   executed (events (snd (executeRemoteCommands (example_env (exec_or_true 1)) example_world))) =
     [buildCompleteUploadCommand ''secret'' ''0.0.0.0 lichess.org'',
      buildBrowserKillCommand [''firefox''], buildBrowserKillCommand [''brave'']] \<and>
   Console (KilledSuccessfully ''brave'') \<in>
     set (events (snd (executeRemoteCommands (example_env (exec_or_true 1)) example_world)))"
    by code_simp
  show ?thesis
    using h x r kill_exit_status_unobservable [of "''firefox''" "example_env (exec_or_true 1)" example_world]
    by (simp add: executeCommand_Inr e emit_def log_def)
qed

section \<open>The default mode\<close>

lemma try_Ready_reads:
  assumes "connect_result en = Ready"
  shows "\<exists>evs. events (snd (executeRemoteCommands_try en w)) = events w @ evs \<and>
    Console (UsingHostsFile (hostsFileName (suspendChess_flag w))) \<in> set evs"
proof -
  let ?T = "\<lambda>e::event. True"
  obtain w1 where a: "establishSSHConnection en w = (Inr (), w1)"
    using assms by (simp add: establishSSHConnection_def Let_def)
  have f1: "suspendChess_flag w1 = suspendChess_flag w"
    using establish_frame(1) [of en w] a by simp
  have "extends_by ?T w (snd (establishSSHConnection en w))"
    by (rule establish_extends) simp_all
  then obtain evs1 where e1: "events w1 = events w @ evs1"
    using a unfolding extends_by_def by auto
  obtain r2 w2 where b: "readLocalHostsFile en (suspendChess_flag w1) w1 = (r2, w2)"
    by fastforce
  obtain evs2 where e2: "events w2 =
      events w1 @ Console (UsingHostsFile (hostsFileName (suspendChess_flag w))) # evs2"
    using b f1
    by (auto simp add: readLocalHostsFile_def hostsFileName_def Let_def split: sum.splits)
  have main: "\<exists>evs3. events (snd (executeRemoteCommands_try en w)) = events w2 @ evs3"
  proof (cases r2)
    case (Inl e)
    then show ?thesis using a b by (simp add: executeRemoteCommands_try_def)
  next
    case r2: (Inr content)
    obtain r3 w3 where c: "uploadHostsFile en content w2 = (r3, w3)" by fastforce
    have "extends_by ?T w2 (snd (uploadHostsFile en content w2))"
      by (rule upload_extends) simp_all
    then obtain evs3 where e3: "events w3 = events w2 @ evs3"
      using c unfolding extends_by_def by auto
    show ?thesis
    proof (cases r3)
      case (Inl e)
      then show ?thesis using a b r2 c e3 by (simp add: executeRemoteCommands_try_def)
    next
      case r3: (Inr u3)
      obtain r4 w4 where d: "killAllBrowsers en w3 = (r4, w4)" by fastforce
      have "extends_by ?T w3 (snd (killAllBrowsers en w3))"
        unfolding killAllBrowsers_def by (rule loop_extends) simp_all
      then obtain evs4 where e4: "events w4 = events w3 @ evs4"
        using d unfolding extends_by_def by auto
      show ?thesis
        using a b r2 c r3 d e3 e4 by (cases r4) (simp_all add: executeRemoteCommands_try_def)
    qed
  qed
  then obtain evs3 where e3: "events (snd (executeRemoteCommands_try en w)) = events w2 @ evs3"
    by blast
  show ?thesis
    using e1 e2 e3 by simp
qed

lemma try_no_ConnEnd:
  "\<exists>evs. events (snd (executeRemoteCommands_try en w)) = events w @ evs \<and> ConnEnd \<notin> set evs"
proof -
  have "extends_by (\<lambda>e. e \<noteq> ConnEnd) w (snd (executeRemoteCommands_try en w))"
    by (rule try_extends) simp_all
  then show ?thesis
    unfolding extends_by_def by (auto simp add: list_all_iff)
qed

lemma suspendChess_events:
  "\<exists>evs tail. events (snd (suspendChess en arg w)) =
      events w @
      [Console StartingScript, Console (ModeLog (shouldBlock_default arg w)),
       Console (TimerConfigured waitTimeMinutes),
       Console (TimerStarted waitTimeMinutes (shouldBlock_default arg w)),
       Console (DisplayUpdates updateIntervalSeconds),
       Console (TimerCompleted (shouldBlock_default arg w)), Console ConnectingTo] @
      evs @ [ConnEnd] @ tail \<and>
    ConnEnd \<notin> set evs \<and>
    (connect_result en = Ready \<longrightarrow>
       Console (UsingHostsFile (hostsFileName (shouldBlock_default arg w))) \<in> set evs)"
proof -
  define b where "b = shouldBlock_default arg w"
  define w5 where "w5 = log ConnectingTo (startTimer b (log (TimerConfigured waitTimeMinutes)
    (log (ModeLog b) (log StartingScript (w\<lparr>suspendChess_flag := b\<rparr>)))))"
  have f5: "suspendChess_flag w5 = b"
    by (simp add: w5_def startTimer_eq)
  have e5: "events w5 = events w @
      [Console StartingScript, Console (ModeLog b), Console (TimerConfigured waitTimeMinutes),
       Console (TimerStarted waitTimeMinutes b), Console (DisplayUpdates updateIntervalSeconds),
       Console (TimerCompleted b), Console ConnectingTo]"
    by (simp add: w5_def startTimer_eq)
  obtain r w' where t: "executeRemoteCommands_try en w5 = (r, w')" by fastforce
  obtain evs where evs: "events w' = events w5 @ evs" "ConnEnd \<notin> set evs"
    using try_no_ConnEnd [of en w5] t by auto
  have rd: "Console (UsingHostsFile (hostsFileName b)) \<in> set evs" if "connect_result en = Ready"
    using try_Ready_reads [OF that, of w5] t evs(1) f5 by auto
  have tr: "suspendChess_try en (w\<lparr>suspendChess_flag := b\<rparr>) =
      (case r of Inl error \<Rightarrow> (Inl error, emit ConnEnd w')
               | Inr u \<Rightarrow> (Inr True, log ScriptCompleted (emit ConnEnd w')))"
    using t by (simp add: suspendChess_try_def Let_def w5_def executeRemoteCommands_def split: sum.splits)
  have "\<exists>tail. events (snd (suspendChess en arg w)) = events w' @ [ConnEnd] @ tail"
    using tr by (cases r) (simp_all add: suspendChess_def Let_def b_def shouldBlock_default_def)
  then show ?thesis
    using evs rd e5 unfolding b_def [symmetric] by auto
qed

text \<open>
  Claim C10. \<open>suspendChess\<close> leaves \<^verbatim>\<open>SSH_CONFIG.suspendChess\<close> as it found it, whether the
  run succeeds or throws; during the run the flag is the argument (or the default when the
  argument is absent): the mode line shows it, and the hosts file read after connecting is
  the one it selects.
\<close>

theorem suspendChess_restores_default:
  "suspendChess_flag (snd (suspendChess en arg w)) = suspendChess_flag w \<and>
   (\<exists>rest. events (snd (suspendChess en arg w)) =
       events w @ [Console StartingScript, Console (ModeLog (shouldBlock_default arg w))] @ rest \<and>
     (connect_result en = Ready \<longrightarrow>
        Console (UsingHostsFile (hostsFileName (shouldBlock_default arg w))) \<in> set rest))"
proof -
  have "suspendChess_flag (snd (suspendChess en arg w)) = suspendChess_flag w"
    by (simp add: suspendChess_def Let_def split: prod.splits sum.splits)
  moreover have "\<exists>rest. events (snd (suspendChess en arg w)) =
       events w @ [Console StartingScript, Console (ModeLog (shouldBlock_default arg w))] @ rest \<and>
     (connect_result en = Ready \<longrightarrow>
        Console (UsingHostsFile (hostsFileName (shouldBlock_default arg w))) \<in> set rest)"
    using suspendChess_events [of en arg w] by auto
  ultimately show ?thesis by simp
qed

text \<open>A run that throws (upload exit code 2) and a run that succeeds.\<close>

theorem suspendChess_restores_default_witness:
  "connect_result (example_env (exec_exit_codes 2 0 0)) = Ready \<and>
   fst (suspendChess (example_env (exec_exit_codes 2 0 0)) (Some False) example_world) =
     Inl (UploadFailed (Some 2)) \<and>
   suspendChess_flag example_world = True \<and>
   suspendChess_flag (snd (suspendChess (example_env (exec_exit_codes 2 0 0)) (Some False)
     example_world)) = True \<and>
   Console (ModeLog False) \<in> set (events (snd (suspendChess (example_env (exec_exit_codes 2 0 0))
     (Some False) example_world))) \<and>
   Console (UsingHostsFile ''hostscommented'') \<in> set (events (snd (suspendChess
     (example_env (exec_exit_codes 2 0 0)) (Some False) example_world))) \<and>
   fst (suspendChess (example_env (exec_exit_codes 0 0 1)) None example_world) = Inr True \<and>
   suspendChess_flag (snd (suspendChess (example_env (exec_exit_codes 0 0 1)) None
     example_world)) = True"
proof -
  have a: "fst (suspendChess (example_env (exec_exit_codes 2 0 0)) (Some False) example_world) =
     Inl (UploadFailed (Some 2))"
    by code_simp
  have b: "fst (suspendChess (example_env (exec_exit_codes 0 0 1)) None example_world) = Inr True"
    by code_simp
  have c: "connect_result (example_env (exec_exit_codes 2 0 0)) = Ready"
      "suspendChess_flag example_world = True"
      "hostsFileName False = ''hostscommented''"
    by (simp_all add: example_env_def example_world_def hostsFileName_def HOSTS_FILE_NAMES_ALLOWED_def)
  show ?thesis
    using suspendChess_restores_default [of "example_env (exec_exit_codes 2 0 0)" "Some False" example_world]
      suspendChess_restores_default [of "example_env (exec_exit_codes 0 0 1)" None example_world]
      a b c
    by (auto simp add: shouldBlock_default_def)
qed

section \<open>The webhook answers first\<close>

text \<open>
  The handler function by itself. When the parser finds no command, it logs the request,
  answers with status \<^verbatim>\<open>ignored\<close> and does nothing else: the orchestrator is not started.
  When the parser finds a command, it answers with status \<^verbatim>\<open>accepted\<close> and the action
  before the orchestrator's first effect, and so before its run ends the connection.
\<close>

lemma ntfy_webhook_answers_first:
  "(parseChessCommand (body_message body) (body_tags body) = None \<longrightarrow>
      ntfy_webhook en body w =
        w\<lparr>events := events w @
          [Console ReceivedNotification, Console (TitleLog (body_title body)),
           Console (MessageLog (body_message body)), Console (PriorityLog (body_priority body)),
           Console (TagsLog (body_tags body)), Console NotRecognized, ResJson ignored_response]\<rparr>) \<and>
   (parseChessCommand (body_message body) (body_tags body) = Some b \<longrightarrow>
      (\<exists>run. events (ntfy_webhook en body w) =
          events w @
          [Console ReceivedNotification, Console (TitleLog (body_title body)),
           Console (MessageLog (body_message body)), Console (PriorityLog (body_priority body)),
           Console (TagsLog (body_tags body)),
           ResJson (accepted_response b), Console (Executing b), Console StartingScript] @ run \<and>
        ConnEnd \<in> set run))"
proof -
  have p1: "ntfy_webhook en body w =
        w\<lparr>events := events w @
          [Console ReceivedNotification, Console (TitleLog (body_title body)),
           Console (MessageLog (body_message body)), Console (PriorityLog (body_priority body)),
           Console (TagsLog (body_tags body)), Console NotRecognized, ResJson ignored_response]\<rparr>"
    if "parseChessCommand (body_message body) (body_tags body) = None"
    using that by (simp add: ntfy_webhook_def Let_def log_def emit_def)
  have p2: "\<exists>run. events (ntfy_webhook en body w) =
          events w @
          [Console ReceivedNotification, Console (TitleLog (body_title body)),
           Console (MessageLog (body_message body)), Console (PriorityLog (body_priority body)),
           Console (TagsLog (body_tags body)),
           ResJson (accepted_response b), Console (Executing b), Console StartingScript] @ run \<and>
        ConnEnd \<in> set run"
    if h: "parseChessCommand (body_message body) (body_tags body) = Some b"
  proof -
    define w7 where "w7 = log (Executing b) (emit (ResJson (accepted_response b))
      (log (TagsLog (body_tags body)) (log (PriorityLog (body_priority body))
      (log (MessageLog (body_message body)) (log (TitleLog (body_title body))
      (log ReceivedNotification w))))))"
    have e7: "events w7 = events w @
          [Console ReceivedNotification, Console (TitleLog (body_title body)),
           Console (MessageLog (body_message body)), Console (PriorityLog (body_priority body)),
           Console (TagsLog (body_tags body)),
           ResJson (accepted_response b), Console (Executing b)]"
      by (simp add: w7_def)
    obtain r w8 where s: "suspendChess en (Some b) w7 = (r, w8)" by fastforce
    obtain run where run: "events w8 = events w7 @ Console StartingScript # run" "ConnEnd \<in> set run"
      using suspendChess_events [of en "Some b" w7] s by auto
    have "\<exists>tail. events (ntfy_webhook en body w) = events w8 @ tail"
      using h s by (cases r) (simp_all add: ntfy_webhook_def Let_def w7_def)
    then show ?thesis using run e7 by auto
  qed
  show ?thesis using p1 p2 by blast
qed

text \<open>The handler function on the requests of scenarios D and C.\<close>

lemma ntfy_webhook_answers_first_scenarios:
  "parseChessCommand (body_message hello_body) (body_tags hello_body) = None \<and>
   ntfy_webhook (example_env (exec_exit_codes 0 0 1)) hello_body example_world =
     example_world\<lparr>events :=
       [Console ReceivedNotification, Console (TitleLog None), Console (MessageLog (Some ''hello'')),
        Console (PriorityLog None), Console (TagsLog (Some [])), Console NotRecognized,
        ResJson [(''status'', ''ignored''), (''message'', ''Not a valid chess command'')]]\<rparr> \<and>
   parseChessCommand (body_message block_body) (body_tags block_body) = Some True \<and>
   take 8 (events (ntfy_webhook (example_env (exec_exit_codes 0 0 1)) block_body example_world)) =
     [Console ReceivedNotification, Console (TitleLog None),
      Console (MessageLog (Some ''block this now'')),
      Console (PriorityLog None), Console (TagsLog (Some [])),
      ResJson [(''status'', ''accepted''), (''action'', ''blocking''),
               (''message'', ''Processing chess command...'')],
      Console (Executing True), Console StartingScript] \<and>
   ConnEnd \<in> set (drop 8 (events (ntfy_webhook (example_env (exec_exit_codes 0 0 1)) block_body
     example_world)))"
proof -
  have a: "parseChessCommand (body_message hello_body) (body_tags hello_body) = None"
    by code_simp
  have b: "parseChessCommand (body_message block_body) (body_tags block_body) = Some True"
    by code_simp
  have c: "events example_world = []" by (simp add: example_world_def)
  have d: "body_title hello_body = None" "body_message hello_body = Some ''hello''"
      "body_priority hello_body = None" "body_tags hello_body = Some []"
      "body_title block_body = None" "body_message block_body = Some ''block this now''"
      "body_priority block_body = None" "body_tags block_body = Some []"
    by (simp_all add: hello_body_def block_body_def)
  show ?thesis
    using ntfy_webhook_answers_first [where body = hello_body and w = example_world
          and en = "example_env (exec_exit_codes 0 0 1)"]
      ntfy_webhook_answers_first [where body = block_body and b = True and w = example_world
          and en = "example_env (exec_exit_codes 0 0 1)"]
      a b
    by (auto simp add: c d ignored_response_def accepted_response_def)
qed

text \<open>
  Claim C4. The handler is written to answer \<^verbatim>\<open>ignored\<close> or \<^verbatim>\<open>accepted\<close> as above, but
  the module that registers it does not load: it imports \<^verbatim>\<open>executeRemoteCommands\<close>, which
  suspend-chess.js does not export. So for every request, the requests of scenarios C and D
  among them, the program started as \<^verbatim>\<open>node ntfy-listener.js\<close> gives no answer at all.
\<close>

theorem ntfy_listener_does_not_load:
  "link_imports ntfy_listener_imports suspend_chess_exports = Some ''executeRemoteCommands'' \<and>
   ntfy_listener en body w = Inl ''executeRemoteCommands'' \<and>
   ntfy_listener en block_body example_world = Inl ''executeRemoteCommands'' \<and>
   ntfy_listener en hello_body example_world = Inl ''executeRemoteCommands''"
proof -
  have l: "link_imports ntfy_listener_imports suspend_chess_exports = Some ''executeRemoteCommands''"
    by (simp add: link_imports_def ntfy_listener_imports_def suspend_chess_exports_def)
  show ?thesis
    by (simp add: ntfy_listener_def l)
qed

end
